theory Spec2Isabelle
  imports Complex_Main
begin

section \<open>JavaScript values used by the application\<close>

text \<open>
  A JavaScript string is modelled as a \<^typ>\<open>string\<close> whose characters are read as
  code units in the range 0..255. A JavaScript number is a binary64 value; its
  arithmetic is modelled with the rounding of IEEE 754 written out.
\<close>

text \<open>
  \<open>String.prototype.trim\<close>: white space and line terminators are removed at both ends.
  In the modelled range these are TAB, LF, VT, FF, CR, SPACE and NBSP.
\<close>

definition is_ws :: "char \<Rightarrow> bool" where
  "is_ws c = (of_char c \<in> {9, 10, 11, 12, 13, 32, 160 :: nat})"

definition trim :: "string \<Rightarrow> string" where
  "trim s = rev (dropWhile is_ws (rev (dropWhile is_ws s)))"

text \<open>
  The value caught in a \<open>catch\<close> block: an \<open>Error\<close> object with its \<open>name\<close> and
  \<open>message\<close>, or a thrown string. \<open>String(err?.message || err)\<close> yields the message when
  it is non-empty, otherwise \<open>Error.prototype.toString\<close> of an error with an empty message
  (its name), and a thrown string as it is.
\<close>

datatype js_err = ErrorObj string string | Thrown string

fun err_text :: "js_err \<Rightarrow> string" where
  "err_text (ErrorObj name message) = (if message \<noteq> [] then message else name)"
| "err_text (Thrown s) = s"

text \<open>
  The test \<open>/device lost|insufficient memory|Device was lost/i.test(message)\<close>: a
  case-insensitive search for one of three literal alternatives anywhere in the message.
\<close>

definition to_lower :: "char \<Rightarrow> char" where
  "to_lower c = (let n = (of_char c :: nat) in if 65 \<le> n \<and> n \<le> 90 then char_of (n + 32) else c)"

fun starts_with :: "string \<Rightarrow> string \<Rightarrow> bool" where
  "starts_with [] s = True"
| "starts_with (p # ps) [] = False"
| "starts_with (p # ps) (c # cs) = (to_lower p = to_lower c \<and> starts_with ps cs)"

fun search_ci :: "string \<Rightarrow> string \<Rightarrow> bool" where
  "search_ci p [] = starts_with p []"
| "search_ci p (c # cs) = (starts_with p (c # cs) \<or> search_ci p cs)"

definition device_lost_test :: "string \<Rightarrow> bool" where
  "device_lost_test message =
     (search_ci ''device lost'' message \<or> search_ci ''insufficient memory'' message
      \<or> search_ci ''Device was lost'' message)"

text \<open>
  A JavaScript number: \<open>Finite m e\<close> stands for the value \<open>m * 2^e\<close>, the other three
  for \<open>NaN\<close>, \<open>Infinity\<close> and \<open>-Infinity\<close>. The finite binary64 values are those with
  \<open>|m| < 2^53\<close> and \<open>-1074 \<le> e \<le> 971\<close>; for instance 0.5 is \<open>Finite 1 (- 1)\<close> and the
  literal 0.3 is \<open>Finite 5404319552844595 (- 54)\<close>. The two zeros are not told apart:
  nothing the application does with a number (\<open>*\<close>, \<open>Math.round\<close>, \<open><\<close>, printing)
  distinguishes them.
\<close>

datatype number = Finite int int | NaN | PosInf | NegInf

fun bit_length :: "nat \<Rightarrow> nat" where
  "bit_length n = (if n = 0 then 0 else Suc (bit_length (n div 2)))"

declare bit_length.simps [simp del]

text \<open>
  The binary64 value nearest to the exact value \<open>m * 2^e\<close>, ties to the even significand:
  the significand is cut to 53 bits (fewer in the subnormal range, where the exponent stops
  at \<open>-1074\<close>), and a result of magnitude \<open>2^1024\<close> or more is an infinity.
\<close>

definition round_binary64 :: "int \<Rightarrow> int \<Rightarrow> number" where
  "round_binary64 m e =
     (if m = 0 then Finite 0 0
      else
        let a = \<bar>m\<bar>;
            q = max (int (bit_length (nat a)) + e - 53) (- 1074);
            n = (if q \<le> e then a * 2 ^ nat (e - q)
                 else
                   let k = nat (q - e);
                       n0 = a div 2 ^ k;
                       r = a mod 2 ^ k;
                       h = 2 ^ (k - 1)
                   in if h < r \<or> (r = h \<and> odd n0) then n0 + 1 else n0)
        in if 971 < q \<or> (q = 971 \<and> 2 ^ 53 \<le> n) then (if m < 0 then NegInf else PosInf)
           else Finite (if m < 0 then - n else n) q)"

fun sign_of :: "number \<Rightarrow> int" where
  "sign_of (Finite m e) = sgn m"
| "sign_of NaN = 0"
| "sign_of PosInf = 1"
| "sign_of NegInf = - 1"

text \<open>
  The operator \<open>*\<close> on numbers: the exact product of two finite values, rounded; otherwise
  \<open>NaN\<close> when an operand is \<open>NaN\<close> or an infinity meets zero, and else the infinity with
  the product of the signs.
\<close>

definition js_times :: "number \<Rightarrow> number \<Rightarrow> number" where
  "js_times x y =
     (case (x, y) of
        (Finite m1 e1, Finite m2 e2) \<Rightarrow> round_binary64 (m1 * m2) (e1 + e2)
      | _ \<Rightarrow>
          if x = NaN \<or> y = NaN \<or> sign_of x * sign_of y = 0 then NaN
          else if 0 < sign_of x * sign_of y then PosInf else NegInf)"

text \<open>
  \<open>Math.round\<close>: the integer nearest to the argument, the one towards \<open>+Infinity\<close> on a
  tie, that is the floor of \<open>x + 1/2\<close> computed exactly; \<open>NaN\<close> and the infinities are
  returned as they are. The result of a finite argument is \<open>Finite n 0\<close>.
\<close>

fun Math_round :: "number \<Rightarrow> number" where
  "Math_round (Finite m e) =
     (if 0 \<le> e then Finite (m * 2 ^ nat e) 0
      else Finite ((2 * m + 2 ^ nat (- e)) div 2 ^ Suc (nat (- e))) 0)"
| "Math_round NaN = NaN"
| "Math_round PosInf = PosInf"
| "Math_round NegInf = NegInf"

text \<open>The operator \<open><\<close> on numbers: false whenever an operand is \<open>NaN\<close>.\<close>

fun js_less :: "number \<Rightarrow> number \<Rightarrow> bool" where
  "js_less (Finite m1 e1) (Finite m2 e2) =
     (m1 * 2 ^ nat (e1 - min e1 e2) < m2 * 2 ^ nat (e2 - min e1 e2))"
| "js_less (Finite m e) PosInf = True"
| "js_less (Finite m e) NegInf = False"
| "js_less (Finite m e) NaN = False"
| "js_less NegInf y = (case y of Finite m e \<Rightarrow> True | PosInf \<Rightarrow> True | NegInf \<Rightarrow> False | NaN \<Rightarrow> False)"
| "js_less PosInf y = False"
| "js_less NaN y = False"

text \<open>Truthiness of a cell that holds \<open>null\<close> or a string: only a non-empty string is truthy.\<close>

fun truthy :: "string option \<Rightarrow> bool" where
  "truthy None = False"
| "truthy (Some t) = (t \<noteq> [])"

section \<open>Application state\<close>

datatype role = user | system

record message =
  msg_id :: string
  role :: role
  content :: string
  pending :: "bool option"

text \<open>
  What \<open>engine.chat.completions.create\<close> does for a prompt: it resolves with a result whose
  first choice has some content (possibly missing), or it throws.
\<close>

datatype completion = Completed "string option" | Threw js_err

datatype engine = Engine (create: "string \<Rightarrow> completion")

text \<open>
  The state held by the \<open>App\<close> component: the \<open>useState\<close> cells, the \<open>triedModelsRef\<close>
  reference, and the \<open>cancelled\<close> variable of the running load effect. The cells
  \<open>progressMessage\<close> and \<open>reloadToken\<close> exist only in the \<open>App\<close> with model selection;
  the functions of \<open>src/App.jsx\<close> never touch them.
\<close>

record app =
  messages :: "message list"
  input :: string
  loading :: bool
  engine :: "engine option"
  isDownloading :: bool
  downloadProgress :: number
  progressMessage :: string
  modelName :: string
  reloadToken :: nat
  error :: "string option"
  triedModels :: "string list"
  cancelled :: bool

section \<open>Chat session: \<open>generateReply\<close> and \<open>handleSubmit\<close>\<close>

text \<open>
  \<open>generateReply\<close> returns the reply text together with the state, since its \<open>catch\<close>
  branch calls \<open>setError\<close>.
\<close>

definition generateReply :: "string \<Rightarrow> app \<Rightarrow> string \<times> app" where
  "generateReply txt s =
     (case engine s of
        None \<Rightarrow> (''Engine not initialized'', s)
      | Some e \<Rightarrow>
          (case create e txt of
             Completed c \<Rightarrow>
               (case c of
                  None \<Rightarrow> (''No response'', s)
                | Some t \<Rightarrow> (if t \<noteq> [] then t else ''No response'', s))
           | Threw err \<Rightarrow>
               (let msg = ''Generation error: '' @ err_text err
                in (msg, s\<lparr>error := Some msg\<rparr>))))"

text \<open>
  \<open>handleSubmit\<close> in two parts, split at its \<open>await\<close>. The two calls of \<open>uid()\<close> draw random
  identifiers; their values are the parameters \<open>uid1\<close> and \<open>uid2\<close>. The synchronous part
  returns \<open>None\<close> when the guard \<open>if (!value || loading) return\<close> fires, otherwise the trimmed
  text, the placeholder id and the state after the three setter calls.
\<close>

definition submit_sync :: "string \<Rightarrow> string \<Rightarrow> app \<Rightarrow> (string \<times> string \<times> app) option" where
  "submit_sync uid1 uid2 s =
     (let val = trim (input s) in
      if val = [] \<or> loading s then None
      else
        let userMsg = \<lparr>msg_id = uid1, role = user, content = val, pending = None\<rparr>;
            placeholderId = uid2;
            placeholder = \<lparr>msg_id = placeholderId, role = system,
                           content = ''Thinking...'', pending = Some True\<rparr>
        in Some (val, placeholderId,
                 s\<lparr>messages := messages s @ [userMsg, placeholder], input := [], loading := True\<rparr>))"

definition submit_resolve :: "string \<Rightarrow> string \<Rightarrow> app \<Rightarrow> app" where
  "submit_resolve placeholderId reply s =
     s\<lparr>messages :=
          map (\<lambda>msg. if msg_id msg = placeholderId
                      then msg\<lparr>content := reply, pending := Some False\<rparr> else msg)
              (messages s),
        loading := False\<rparr>"

definition handleSubmit :: "string \<Rightarrow> string \<Rightarrow> app \<Rightarrow> app" where
  "handleSubmit uid1 uid2 s =
     (case submit_sync uid1 uid2 s of
        None \<Rightarrow> s
      | Some (val, placeholderId, s1) \<Rightarrow>
          (case generateReply val s1 of
             (reply, s2) \<Rightarrow> submit_resolve placeholderId reply s2))"

text \<open>The initial state of the \<open>App\<close> of \<open>src/App.jsx\<close>; \<open>uid0\<close> is the id drawn for the greeting.\<close>

definition initial_app :: "string \<Rightarrow> app" where
  "initial_app uid0 =
     \<lparr>messages = [\<lparr>msg_id = uid0, role = system,
                    content = ''Hi! How can I help you today?'', pending = None\<rparr>],
      input = [], loading = False, engine = None, isDownloading = False,
      downloadProgress = Finite 0 0, progressMessage = [],
      modelName = ''Llama-3.1-8B-Instruct-q4f32_1-MLC'', reloadToken = 0,
      error = None, triedModels = [], cancelled = False\<rparr>"

section \<open>Model loading: the fallback loop\<close>

text \<open>
  The object handed to \<open>initProgressCallback\<close>. Both fields may be missing
  (\<open>progressObj.progress ?? 0\<close>, \<open>if (progressObj.text)\<close>).
\<close>

record progressObj =
  progress :: "number option"
  diag_text :: "string option"

text \<open>\<open>Math.round((progressObj.progress ?? 0) * 100)\<close>.\<close>

definition percent_of :: "progressObj \<Rightarrow> number" where
  "percent_of progressObj =
     Math_round (js_times (case progress progressObj of None \<Rightarrow> Finite 0 0 | Some x \<Rightarrow> x)
                          (Finite 100 0))"

text \<open>
  What happens while \<open>loadModel\<close> is suspended at \<open>await webllm.CreateMLCEngine(...)\<close>: the
  engine calls the progress callback, or React runs the effect's cleanup
  (\<open>cancelled = true\<close>), in some order; then the promise settles.
\<close>

datatype await_event = ProgressCb progressObj | Cleanup

datatype settled = Created engine | InitFailed js_err

record attempt =
  callbacks :: "await_event list"
  result :: settled

text \<open>The progress callback of \<open>src/App.jsx\<close>.\<close>

definition initProgressCallback :: "progressObj \<Rightarrow> app \<Rightarrow> app" where
  "initProgressCallback progressObj s =
     (if cancelled s then s
      else
        let percent = percent_of progressObj
        in s\<lparr>downloadProgress := percent, isDownloading := js_less percent (Finite 100 0)\<rparr>)"

text \<open>The progress callback of the \<open>App\<close> with model selection, which also keeps the text.\<close>

definition initProgressCallback_sel :: "progressObj \<Rightarrow> app \<Rightarrow> app" where
  "initProgressCallback_sel progressObj s =
     (if cancelled s then s
      else
        let percent = percent_of progressObj;
            s1 = s\<lparr>downloadProgress := percent,
                   isDownloading := js_less percent (Finite 100 0)\<rparr>
        in case diag_text progressObj of
             None \<Rightarrow> s1
           | Some t \<Rightarrow> if t \<noteq> [] then s1\<lparr>progressMessage := t\<rparr> else s1)"

fun await_events :: "(progressObj \<Rightarrow> app \<Rightarrow> app) \<Rightarrow> await_event list \<Rightarrow> app \<Rightarrow> app" where
  "await_events cb [] s = s"
| "await_events cb (ProgressCb p # es) s = await_events cb es (cb p s)"
| "await_events cb (Cleanup # es) s = await_events cb es (s\<lparr>cancelled := True\<rparr>)"

text \<open>
  \<open>loadModel\<close> of \<open>src/App.jsx\<close>. \<open>mlc\<close> stands for \<open>webllm.CreateMLCEngine\<close>: for a model
  id it gives what the engine does during the attempt.
\<close>

function loadModel :: "(string \<Rightarrow> attempt) \<Rightarrow> string list \<Rightarrow> nat \<Rightarrow> app \<Rightarrow> app" where
  "loadModel mlc fallbackModels nameIdx s =
     (if nameIdx \<ge> length fallbackModels then s
      else
        let selectedModel = fallbackModels ! nameIdx;
            s1 = s\<lparr>modelName := selectedModel,
                   triedModels := triedModels s @ [selectedModel],
                   isDownloading := True, downloadProgress := Finite 0 0, error := None\<rparr>;
            a = mlc selectedModel;
            s2 = await_events initProgressCallback (callbacks a) s1
        in case result a of
             Created created \<Rightarrow>
               if cancelled s2 then s2
               else s2\<lparr>engine := Some created, isDownloading := False, downloadProgress := Finite 100 0\<rparr>
           | InitFailed err \<Rightarrow>
               if cancelled s2 then s2
               else
                 let message = err_text err;
                     s3 = s2\<lparr>error := Some message\<rparr>
                 in if device_lost_test message
                    then loadModel mlc fallbackModels (nameIdx + 1) s3
                    else s3\<lparr>isDownloading := False\<rparr>)"
  by pat_completeness auto
termination
  by (relation "measure (\<lambda>(mlc, fallbackModels, nameIdx, s). length fallbackModels - nameIdx)") auto

text \<open>
  \<open>loadModel\<close> of the \<open>App\<close> with model selection: it tests \<open>cancelled\<close> on entry, does not
  set \<open>modelName\<close>, and uses the callback that keeps the diagnostic text.
\<close>

function loadModel_sel :: "(string \<Rightarrow> attempt) \<Rightarrow> string list \<Rightarrow> nat \<Rightarrow> app \<Rightarrow> app" where
  "loadModel_sel mlc fallbackModels nameIdx s =
     (if cancelled s then s
      else if nameIdx \<ge> length fallbackModels then s
      else
        let selectedModel = fallbackModels ! nameIdx;
            s1 = s\<lparr>isDownloading := True, downloadProgress := Finite 0 0, error := None,
                   triedModels := triedModels s @ [selectedModel]\<rparr>;
            a = mlc selectedModel;
            s2 = await_events initProgressCallback_sel (callbacks a) s1
        in case result a of
             Created created \<Rightarrow>
               if cancelled s2 then s2
               else s2\<lparr>engine := Some created, isDownloading := False, downloadProgress := Finite 100 0\<rparr>
           | InitFailed err \<Rightarrow>
               if cancelled s2 then s2
               else
                 let message = err_text err;
                     s3 = s2\<lparr>error := Some message\<rparr>
                 in if device_lost_test message
                    then loadModel_sel mlc fallbackModels (nameIdx + 1) s3
                    else s3\<lparr>isDownloading := False\<rparr>)"
  by pat_completeness auto
termination
  by (relation "measure (\<lambda>(mlc, fallbackModels, nameIdx, s). length fallbackModels - nameIdx)") auto

declare loadModel.simps [simp del] loadModel_sel.simps [simp del]

text \<open>
  The load effects. \<open>src/App.jsx\<close> runs \<open>loadModel()\<close> once, with the default index 0, over
  its list. The \<open>App\<close> with model selection starts at the position of the selected model
  in \<open>FALLBACK_MODELS\<close> (\<open>indexOf\<close>, or 0 when it is absent) and only when no engine is held.
\<close>

definition fallbackModels_App :: "string list" where
  "fallbackModels_App =
     [''Llama-3.2-1B-Instruct-q4f16_1-MLC'', ''Llama-3.1-8B-Instruct-q4f32_1-MLC'',
      ''Llama-3.1-8B-Instruct-q4f16_1-MLC'', ''Llama-3.2-3B-Instruct-q4f16_1-MLC'']"

definition FALLBACK_MODELS :: "string list" where
  "FALLBACK_MODELS =
     [''Llama-3.1-8B-Instruct-q4f32_1-MLC'', ''Llama-3.1-8B-Instruct-q4f16_1-MLC'',
      ''Llama-3.2-3B-Instruct-q4f16_1-MLC'', ''Llama-3.2-1B-Instruct-q4f16_1-MLC'']"

fun indexOf :: "string list \<Rightarrow> string \<Rightarrow> nat option" where
  "indexOf [] x = None"
| "indexOf (y # ys) x = (if y = x then Some 0 else map_option Suc (indexOf ys x))"

definition startIndex :: "string list \<Rightarrow> string \<Rightarrow> nat" where
  "startIndex fallbackModels name = (case indexOf fallbackModels name of Some i \<Rightarrow> i | None \<Rightarrow> 0)"

definition load_effect :: "(string \<Rightarrow> attempt) \<Rightarrow> string list \<Rightarrow> app \<Rightarrow> app" where
  "load_effect mlc fallbackModels s = loadModel mlc fallbackModels 0 (s\<lparr>cancelled := False\<rparr>)"

definition load_effect_sel :: "(string \<Rightarrow> attempt) \<Rightarrow> string list \<Rightarrow> app \<Rightarrow> app" where
  "load_effect_sel mlc fallbackModels s =
     (let s0 = s\<lparr>cancelled := False\<rparr>
      in if engine s0 = None
         then loadModel_sel mlc fallbackModels (startIndex fallbackModels (modelName s0)) s0
         else s0)"

text \<open>The initial state of the \<open>App\<close> with model selection: it differs in the selected model.\<close>

definition initial_app_sel :: "string \<Rightarrow> app" where
  "initial_app_sel uid0 = (initial_app uid0)\<lparr>modelName := ''Llama-3.2-1B-Instruct-q4f16_1-MLC''\<rparr>"

text \<open>
  The number on the screen. The progress panel renders \<open>{downloadProgress}%\<close> and a bar
  of width \<open>${downloadProgress}%\<close>. \<open>src/App.jsx\<close> renders the panel only under
  \<open>(isDownloading && !engine) || (!engine && error)\<close> and the chat screen otherwise; the
  \<open>App\<close> with model selection renders it whenever \<open>!engine\<close>. \<open>None\<close> stands for no
  progress value on the screen.
\<close>

definition progress_shown :: "app \<Rightarrow> number option" where
  "progress_shown s =
     (if (isDownloading s \<and> engine s = None) \<or> (engine s = None \<and> truthy (error s))
      then Some (downloadProgress s) else None)"

definition progress_shown_sel :: "app \<Rightarrow> number option" where
  "progress_shown_sel s = (if engine s = None then Some (downloadProgress s) else None)"

text \<open>The progress objects among the events of one attempt, in the order delivered.\<close>

fun progress_objs :: "await_event list \<Rightarrow> progressObj list" where
  "progress_objs [] = []"
| "progress_objs (ProgressCb p # es) = p # progress_objs es"
| "progress_objs (Cleanup # es) = progress_objs es"

section \<open>Example engines\<close>

text \<open>
  Concrete behaviours of \<open>CreateMLCEngine\<close> and of an engine, used to run the model. The
  fractions are the binary64 values of the literals 0.3 (\<open>Finite 5404319552844595 (- 54)\<close>),
  0.5, 1, 0.9 (\<open>Finite 8106479329266893 (- 53)\<close>) and 0.995
  (\<open>Finite 8962163258467287 (- 53)\<close>).
\<close>

definition echo_engine :: engine where
  "echo_engine = Engine (\<lambda>t. Completed (Some t))"

definition hello_engine :: engine where
  "hello_engine = Engine (\<lambda>t. Completed (Some ''Hello!''))"

definition broken_engine :: engine where
  "broken_engine = Engine (\<lambda>t. Threw (ErrorObj ''Error'' ''context window exceeded''))"

definition lost_attempt :: attempt where
  "lost_attempt =
     \<lparr>callbacks = [ProgressCb \<lparr>progress = Some (Finite 5404319552844595 (- 54)), diag_text = Some ''Fetching param cache''\<rparr>],
      result = InitFailed (ErrorObj ''Error'' ''Device was lost'')\<rparr>"

definition good_attempt :: attempt where
  "good_attempt =
     \<lparr>callbacks = [ProgressCb \<lparr>progress = Some (Finite 1 (- 1)), diag_text = None\<rparr>,
                  ProgressCb \<lparr>progress = Some (Finite 1 0), diag_text = Some ''Finish loading''\<rparr>],
      result = Created echo_engine\<rparr>"


definition switched_attempt :: attempt where
  "switched_attempt =
     \<lparr>callbacks = [ProgressCb \<lparr>progress = Some (Finite 5404319552844595 (- 54)), diag_text = None\<rparr>, Cleanup,
                  ProgressCb \<lparr>progress = Some (Finite 8106479329266893 (- 53)), diag_text = Some ''Loading GPU shader''\<rparr>],
      result = Created echo_engine\<rparr>"



definition mlc_all_lost :: "string \<Rightarrow> attempt" where
  "mlc_all_lost m = lost_attempt"

definition mlc_third_loads :: "string \<Rightarrow> attempt" where
  "mlc_third_loads m = (if m = ''A'' \<or> m = ''B'' then lost_attempt else good_attempt)"


definition mlc_first_loads :: "string \<Rightarrow> attempt" where
  "mlc_first_loads m = (if m = ''A'' then good_attempt else lost_attempt)"

definition mlc_switched :: "string \<Rightarrow> attempt" where
  "mlc_switched m = switched_attempt"

section \<open>Evaluating the arithmetic\<close>

lemma bit_length_0: "bit_length 0 = 0"
  by (subst bit_length.simps) simp

lemma bit_length_1: "bit_length (Suc 0) = Suc 0"
  by (subst bit_length.simps) (simp add: bit_length_0)

lemma bit_length_One: "bit_length (numeral Num.One) = Suc 0"
  by (simp add: bit_length_1)

lemma bit_length_Bit0: "bit_length (numeral (Num.Bit0 k)) = Suc (bit_length (numeral k))"
  by (subst bit_length.simps) simp

lemma bit_length_Bit1: "bit_length (numeral (Num.Bit1 k)) = Suc (bit_length (numeral k))"
  by (subst bit_length.simps) simp

lemmas bit_length_numeral =
  bit_length_0 bit_length_1 bit_length_One bit_length_Bit0 bit_length_Bit1

lemmas percent_eval = percent_of_def js_times_def round_binary64_def Let_def bit_length_numeral

text \<open>The percentages of the fractions 0.5, 0.3, 0.2 and 1.\<close>

lemma percent_half: "percent_of \<lparr>progress = Some (Finite 1 (- 1)), diag_text = t\<rparr> = Finite 50 0"
  by (simp add: percent_eval)

lemma percent_0_3:
  "percent_of \<lparr>progress = Some (Finite 5404319552844595 (- 54)), diag_text = t\<rparr> = Finite 30 0"
  by (simp add: percent_eval)

lemma percent_0_2:
  "percent_of \<lparr>progress = Some (Finite 3602879701896397 (- 54)), diag_text = t\<rparr> = Finite 20 0"
  by (simp add: percent_eval)

lemma percent_one: "percent_of \<lparr>progress = Some (Finite 1 0), diag_text = t\<rparr> = Finite 100 0"
  by (simp add: percent_eval)


lemma percent_missing: "percent_of \<lparr>progress = None, diag_text = t\<rparr> = Finite 0 0"
  by (simp add: percent_eval)

section \<open>Events during an attempt\<close>

lemma await_events_append:
  "await_events cb (xs @ ys) s = await_events cb ys (await_events cb xs s)"
  by (induction cb xs s rule: await_events.induct) simp_all

lemma await_events_field:
  assumes "\<And>p s. f (cb p s) = f s" and "\<And>s. f (s\<lparr>cancelled := True\<rparr>) = f s"
  shows "f (await_events cb es s) = f s"
  using assms by (induction cb es s rule: await_events.induct) simp_all

lemma await_events_inert:
  assumes "\<And>p s. cancelled s \<Longrightarrow> cb p s = s" and "cancelled s"
  shows "await_events cb es s = s"
  using assms by (induction cb es s rule: await_events.induct) simp_all

lemma await_events_cancelled:
  assumes "\<And>p s. cancelled (cb p s) = cancelled s"
  shows "cancelled (await_events cb es s) = (cancelled s \<or> Cleanup \<in> set es)"
  using assms by (induction cb es s rule: await_events.induct) auto

lemma progress_objs_Nil: "Cleanup \<notin> set es \<Longrightarrow> progress_objs es = [] \<Longrightarrow> es = []"
  by (cases es rule: progress_objs.cases) simp_all

section \<open>Steps of \<open>loadModel\<close> (\<open>src/App.jsx\<close>)\<close>

lemma initProgressCallback_inert: "cancelled s \<Longrightarrow> initProgressCallback p s = s"
  by (simp add: initProgressCallback_def)

lemma initProgressCallback_cancelled: "cancelled (initProgressCallback p s) = cancelled s"
  by (simp add: initProgressCallback_def Let_def split: option.splits)

lemma initProgressCallback_frame:
  "triedModels (initProgressCallback p s) = triedModels s"
  "engine (initProgressCallback p s) = engine s"
  "error (initProgressCallback p s) = error s"
  "modelName (initProgressCallback p s) = modelName s"
  "messages (initProgressCallback p s) = messages s"
  by (simp_all add: initProgressCallback_def Let_def split: option.splits)

lemma initProgressCallback_percent:
  "\<not> cancelled s \<Longrightarrow> downloadProgress (initProgressCallback p s) = percent_of p"
  "\<not> cancelled s \<Longrightarrow> isDownloading (initProgressCallback p s) = js_less (percent_of p) (Finite 100 0)"
  by (simp_all add: initProgressCallback_def Let_def split: option.splits)

lemma await_initProgressCallback_frame:
  "triedModels (await_events initProgressCallback es s) = triedModels s"
  "engine (await_events initProgressCallback es s) = engine s"
  "error (await_events initProgressCallback es s) = error s"
  "modelName (await_events initProgressCallback es s) = modelName s"
  "messages (await_events initProgressCallback es s) = messages s"
  by (rule await_events_field; simp add: initProgressCallback_frame)+

lemma await_initProgressCallback_progress:
  assumes "Cleanup \<notin> set es" and "\<not> cancelled s" and "progress_objs es \<noteq> []"
  shows "downloadProgress (await_events initProgressCallback es s) = percent_of (last (progress_objs es))
       \<and> isDownloading (await_events initProgressCallback es s)
           = js_less (percent_of (last (progress_objs es))) (Finite 100 0)"
  using assms
proof (induction es arbitrary: s)
  case Nil
  then show ?case by simp
next
  case (Cons e es)
  then obtain p where e: "e = ProgressCb p"
    by (cases e) auto
  show ?case
  proof (cases "progress_objs es = []")
    case True
    then have "es = []"
      using Cons.prems(1) by (simp add: progress_objs_Nil)
    then show ?thesis
      using Cons.prems(2) e by (simp add: initProgressCallback_percent)
  next
    case False
    then show ?thesis
      using Cons e by (simp add: initProgressCallback_cancelled)
  qed
qed


lemma loadModel_past_end: "length cands \<le> i \<Longrightarrow> \<not> cancelled s \<Longrightarrow> loadModel mlc cands i s = s"
  by (simp add: loadModel.simps)

lemma loadModel_cancel:
  assumes "i < length cands" and "callbacks (mlc (cands ! i)) = pre @ Cleanup # post"
    and "\<not> cancelled s"
  shows "loadModel mlc cands i s =
           (await_events initProgressCallback pre
              (s\<lparr>modelName := cands ! i, triedModels := triedModels s @ [cands ! i],
                 isDownloading := True, downloadProgress := Finite 0 0, error := None\<rparr>))\<lparr>cancelled := True\<rparr>"
  using assms
  by (subst loadModel.simps)
     (simp add: Let_def await_events_append await_events_inert initProgressCallback_inert split: settled.splits)

lemma loadModel_created:
  assumes "i < length cands" and "result (mlc (cands ! i)) = Created e"
    and "Cleanup \<notin> set (callbacks (mlc (cands ! i)))" and "\<not> cancelled s"
  shows "loadModel mlc cands i s =
           (await_events initProgressCallback (callbacks (mlc (cands ! i)))
              (s\<lparr>modelName := cands ! i, triedModels := triedModels s @ [cands ! i],
                 isDownloading := True, downloadProgress := Finite 0 0, error := None\<rparr>))
           \<lparr>engine := Some e, isDownloading := False, downloadProgress := Finite 100 0\<rparr>"
  using assms
  by (subst loadModel.simps) (simp add: Let_def await_events_cancelled initProgressCallback_cancelled)


lemma loadModel_failed_next:
  assumes "i < length cands" and "result (mlc (cands ! i)) = InitFailed err"
    and "device_lost_test (err_text err)"
    and "Cleanup \<notin> set (callbacks (mlc (cands ! i)))" and "\<not> cancelled s"
  shows "loadModel mlc cands i s =
           loadModel mlc cands (Suc i)
             ((await_events initProgressCallback (callbacks (mlc (cands ! i)))
                (s\<lparr>modelName := cands ! i, triedModels := triedModels s @ [cands ! i],
                 isDownloading := True, downloadProgress := Finite 0 0, error := None\<rparr>))
              \<lparr>error := Some (err_text err)\<rparr>)"
  using assms
  by (subst loadModel.simps) (simp add: Let_def await_events_cancelled initProgressCallback_cancelled)


lemma loadModel_all_exhausted:
  assumes "\<forall>k. i \<le> k \<and> k < length cands \<longrightarrow>
             (\<exists>err. result (mlc (cands ! k)) = InitFailed err \<and> device_lost_test (err_text err))
             \<and> Cleanup \<notin> set (callbacks (mlc (cands ! k)))"
    and "\<not> cancelled s"
  shows "triedModels (loadModel mlc cands i s) = triedModels s @ drop i cands
       \<and> engine (loadModel mlc cands i s) = engine s
       \<and> \<not> cancelled (loadModel mlc cands i s)
       \<and> (i < length cands \<longrightarrow>
            (\<exists>err. result (mlc (last cands)) = InitFailed err
                  \<and> error (loadModel mlc cands i s) = Some (err_text err)))"
  using assms
proof (induction "length cands - i" arbitrary: i s)
  case 0
  then show ?case by (simp add: loadModel_past_end)
next
  case (Suc n)
  then have i: "i < length cands" by simp
  with Suc.prems obtain err where err: "result (mlc (cands ! i)) = InitFailed err"
      "device_lost_test (err_text err)" and nc: "Cleanup \<notin> set (callbacks (mlc (cands ! i)))"
    by blast
  let ?s3 = "(await_events initProgressCallback (callbacks (mlc (cands ! i)))
                (s\<lparr>modelName := cands ! i, triedModels := triedModels s @ [cands ! i],
                 isDownloading := True, downloadProgress := Finite 0 0, error := None\<rparr>))
              \<lparr>error := Some (err_text err)\<rparr>"
  have step: "loadModel mlc cands i s = loadModel mlc cands (Suc i) ?s3"
    using i err nc Suc.prems(2) by (rule loadModel_failed_next)
  have s3: "\<not> cancelled ?s3" "triedModels ?s3 = triedModels s @ [cands ! i]"
      "engine ?s3 = engine s" "error ?s3 = Some (err_text err)"
    using Suc.prems(2) nc by (simp_all add: await_events_cancelled initProgressCallback_cancelled await_initProgressCallback_frame)
  have n: "n = length cands - Suc i"
    using Suc.hyps(2) by simp
  have hyp: "\<forall>k. Suc i \<le> k \<and> k < length cands \<longrightarrow>
             (\<exists>err. result (mlc (cands ! k)) = InitFailed err \<and> device_lost_test (err_text err))
             \<and> Cleanup \<notin> set (callbacks (mlc (cands ! k)))"
    using Suc.prems(1) by simp
  note IH = Suc.hyps(1)[OF n hyp s3(1)]
  have dr: "drop i cands = cands ! i # drop (Suc i) cands"
    using i by (simp add: Cons_nth_drop_Suc)
  show ?case
  proof (cases "Suc i < length cands")
    case True
    then show ?thesis
      using IH step s3 dr by simp
  next
    case False
    then have l: "Suc i = length cands"
      using i by simp
    then have "last cands = cands ! i"
      using i by (metis diff_Suc_1 last_conv_nth length_greater_0_conv less_nat_zero_code list.size(3))
    moreover have "loadModel mlc cands i s = ?s3"
      using step l s3(1) by (simp add: loadModel_past_end)
    moreover have "drop i cands = [cands ! i]"
      using dr l by simp
    ultimately show ?thesis
      using s3 err i by simp
  qed
qed

section \<open>Steps of \<open>loadModel\<close> (the \<open>App\<close> with model selection)\<close>

lemma initProgressCallback_sel_inert: "cancelled s \<Longrightarrow> initProgressCallback_sel p s = s"
  by (simp add: initProgressCallback_sel_def)

lemma initProgressCallback_sel_cancelled: "cancelled (initProgressCallback_sel p s) = cancelled s"
  by (simp add: initProgressCallback_sel_def Let_def split: option.splits)

lemma initProgressCallback_sel_frame:
  "triedModels (initProgressCallback_sel p s) = triedModels s"
  "engine (initProgressCallback_sel p s) = engine s"
  "error (initProgressCallback_sel p s) = error s"
  "modelName (initProgressCallback_sel p s) = modelName s"
  "messages (initProgressCallback_sel p s) = messages s"
  by (simp_all add: initProgressCallback_sel_def Let_def split: option.splits)

lemma initProgressCallback_sel_percent:
  "\<not> cancelled s \<Longrightarrow> downloadProgress (initProgressCallback_sel p s) = percent_of p"
  "\<not> cancelled s \<Longrightarrow> isDownloading (initProgressCallback_sel p s) = js_less (percent_of p) (Finite 100 0)"
  by (simp_all add: initProgressCallback_sel_def Let_def split: option.splits)

lemma await_initProgressCallback_sel_frame:
  "triedModels (await_events initProgressCallback_sel es s) = triedModels s"
  "engine (await_events initProgressCallback_sel es s) = engine s"
  "error (await_events initProgressCallback_sel es s) = error s"
  "modelName (await_events initProgressCallback_sel es s) = modelName s"
  "messages (await_events initProgressCallback_sel es s) = messages s"
  by (rule await_events_field; simp add: initProgressCallback_sel_frame)+

lemma await_initProgressCallback_sel_progress:
  assumes "Cleanup \<notin> set es" and "\<not> cancelled s" and "progress_objs es \<noteq> []"
  shows "downloadProgress (await_events initProgressCallback_sel es s) = percent_of (last (progress_objs es))
       \<and> isDownloading (await_events initProgressCallback_sel es s)
           = js_less (percent_of (last (progress_objs es))) (Finite 100 0)"
  using assms
proof (induction es arbitrary: s)
  case Nil
  then show ?case by simp
next
  case (Cons e es)
  then obtain p where e: "e = ProgressCb p"
    by (cases e) auto
  show ?case
  proof (cases "progress_objs es = []")
    case True
    then have "es = []"
      using Cons.prems(1) by (simp add: progress_objs_Nil)
    then show ?thesis
      using Cons.prems(2) e by (simp add: initProgressCallback_sel_percent)
  next
    case False
    then show ?thesis
      using Cons e by (simp add: initProgressCallback_sel_cancelled)
  qed
qed


lemma loadModel_sel_past_end: "length cands \<le> i \<Longrightarrow> \<not> cancelled s \<Longrightarrow> loadModel_sel mlc cands i s = s"
  by (simp add: loadModel_sel.simps)

lemma loadModel_sel_cancel:
  assumes "i < length cands" and "callbacks (mlc (cands ! i)) = pre @ Cleanup # post"
    and "\<not> cancelled s"
  shows "loadModel_sel mlc cands i s =
           (await_events initProgressCallback_sel pre
              (s\<lparr>isDownloading := True, downloadProgress := Finite 0 0, error := None,
                 triedModels := triedModels s @ [cands ! i]\<rparr>))\<lparr>cancelled := True\<rparr>"
  using assms
  by (subst loadModel_sel.simps)
     (simp add: Let_def await_events_append await_events_inert initProgressCallback_sel_inert split: settled.splits)

lemma loadModel_sel_created:
  assumes "i < length cands" and "result (mlc (cands ! i)) = Created e"
    and "Cleanup \<notin> set (callbacks (mlc (cands ! i)))" and "\<not> cancelled s"
  shows "loadModel_sel mlc cands i s =
           (await_events initProgressCallback_sel (callbacks (mlc (cands ! i)))
              (s\<lparr>isDownloading := True, downloadProgress := Finite 0 0, error := None,
                 triedModels := triedModels s @ [cands ! i]\<rparr>))
           \<lparr>engine := Some e, isDownloading := False, downloadProgress := Finite 100 0\<rparr>"
  using assms
  by (subst loadModel_sel.simps) (simp add: Let_def await_events_cancelled initProgressCallback_sel_cancelled)


lemma loadModel_sel_failed_next:
  assumes "i < length cands" and "result (mlc (cands ! i)) = InitFailed err"
    and "device_lost_test (err_text err)"
    and "Cleanup \<notin> set (callbacks (mlc (cands ! i)))" and "\<not> cancelled s"
  shows "loadModel_sel mlc cands i s =
           loadModel_sel mlc cands (Suc i)
             ((await_events initProgressCallback_sel (callbacks (mlc (cands ! i)))
                (s\<lparr>isDownloading := True, downloadProgress := Finite 0 0, error := None,
                 triedModels := triedModels s @ [cands ! i]\<rparr>))
              \<lparr>error := Some (err_text err)\<rparr>)"
  using assms
  by (subst loadModel_sel.simps) (simp add: Let_def await_events_cancelled initProgressCallback_sel_cancelled)


lemma loadModel_sel_all_exhausted:
  assumes "\<forall>k. i \<le> k \<and> k < length cands \<longrightarrow>
             (\<exists>err. result (mlc (cands ! k)) = InitFailed err \<and> device_lost_test (err_text err))
             \<and> Cleanup \<notin> set (callbacks (mlc (cands ! k)))"
    and "\<not> cancelled s"
  shows "triedModels (loadModel_sel mlc cands i s) = triedModels s @ drop i cands
       \<and> engine (loadModel_sel mlc cands i s) = engine s
       \<and> \<not> cancelled (loadModel_sel mlc cands i s)
       \<and> (i < length cands \<longrightarrow>
            (\<exists>err. result (mlc (last cands)) = InitFailed err
                  \<and> error (loadModel_sel mlc cands i s) = Some (err_text err)))"
  using assms
proof (induction "length cands - i" arbitrary: i s)
  case 0
  then show ?case by (simp add: loadModel_sel_past_end)
next
  case (Suc n)
  then have i: "i < length cands" by simp
  with Suc.prems obtain err where err: "result (mlc (cands ! i)) = InitFailed err"
      "device_lost_test (err_text err)" and nc: "Cleanup \<notin> set (callbacks (mlc (cands ! i)))"
    by blast
  let ?s3 = "(await_events initProgressCallback_sel (callbacks (mlc (cands ! i)))
                (s\<lparr>isDownloading := True, downloadProgress := Finite 0 0, error := None,
                 triedModels := triedModels s @ [cands ! i]\<rparr>))
              \<lparr>error := Some (err_text err)\<rparr>"
  have step: "loadModel_sel mlc cands i s = loadModel_sel mlc cands (Suc i) ?s3"
    using i err nc Suc.prems(2) by (rule loadModel_sel_failed_next)
  have s3: "\<not> cancelled ?s3" "triedModels ?s3 = triedModels s @ [cands ! i]"
      "engine ?s3 = engine s" "error ?s3 = Some (err_text err)"
    using Suc.prems(2) nc by (simp_all add: await_events_cancelled initProgressCallback_sel_cancelled await_initProgressCallback_sel_frame)
  have n: "n = length cands - Suc i"
    using Suc.hyps(2) by simp
  have hyp: "\<forall>k. Suc i \<le> k \<and> k < length cands \<longrightarrow>
             (\<exists>err. result (mlc (cands ! k)) = InitFailed err \<and> device_lost_test (err_text err))
             \<and> Cleanup \<notin> set (callbacks (mlc (cands ! k)))"
    using Suc.prems(1) by simp
  note IH = Suc.hyps(1)[OF n hyp s3(1)]
  have dr: "drop i cands = cands ! i # drop (Suc i) cands"
    using i by (simp add: Cons_nth_drop_Suc)
  show ?case
  proof (cases "Suc i < length cands")
    case True
    then show ?thesis
      using IH step s3 dr by simp
  next
    case False
    then have l: "Suc i = length cands"
      using i by simp
    then have "last cands = cands ! i"
      using i by (metis diff_Suc_1 last_conv_nth length_greater_0_conv less_nat_zero_code list.size(3))
    moreover have "loadModel_sel mlc cands i s = ?s3"
      using step l s3(1) by (simp add: loadModel_sel_past_end)
    moreover have "drop i cands = [cands ! i]"
      using dr l by simp
    ultimately show ?thesis
      using s3 err i by simp
  qed
qed

section \<open>Properties of the chat session\<close>

lemma trim_all_ws: "\<forall>c\<in>set t. is_ws c \<Longrightarrow> trim t = []"
proof -
  assume "\<forall>c\<in>set t. is_ws c"
  then have "dropWhile is_ws t = []"
    by (simp add: dropWhile_eq_Nil_conv)
  then show ?thesis
    by (simp only: trim_def rev.simps dropWhile.simps)
qed

text \<open>
  Claim C7. A submit whose input is empty or consists of white space only, and a submit
  issued while a generation is in flight, returns the state as it was: the transcript and
  every other cell are unchanged.
\<close>

theorem submit_rejected_unchanged:
  "(\<forall>c\<in>set (input s). is_ws c) \<or> loading s \<Longrightarrow> handleSubmit uid1 uid2 s = s"
  by (auto simp: handleSubmit_def submit_sync_def trim_all_ws)

theorem submit_rejected_unchanged_witness:
  "handleSubmit ''u1'' ''u2'' ((initial_app ''u0'')\<lparr>input := ''   ''\<rparr>)
     = (initial_app ''u0'')\<lparr>input := ''   ''\<rparr>"
  using submit_rejected_unchanged
          [where s = "(initial_app ''u0'')\<lparr>input := ''   ''\<rparr>" and ?uid1.0 = "''u1''" and ?uid2.0 = "''u2''"]
  by (simp add: is_ws_def)

lemma resolve_fresh:
  "pid \<notin> msg_id ` set ms \<Longrightarrow>
     map (\<lambda>msg. if msg_id msg = pid then msg\<lparr>content := r, pending := Some False\<rparr> else msg) ms = ms"
  by (induction ms) auto

lemma generateReply_frame:
  "messages (snd (generateReply txt s)) = messages s"
  "loading (snd (generateReply txt s)) = loading s"
  "input (snd (generateReply txt s)) = input s"
  "engine (snd (generateReply txt s)) = engine s"
  by (simp_all add: generateReply_def Let_def split: option.splits completion.splits)

lemma generateReply_reply:
  "engine s' = engine s \<Longrightarrow> fst (generateReply txt s') = fst (generateReply txt s)"
  by (simp add: generateReply_def Let_def split: option.splits completion.splits)

lemma submit_sync_accepted:
  assumes "trim (input s) \<noteq> []" and "\<not> loading s"
  shows "submit_sync uid1 uid2 s =
           Some (trim (input s), uid2,
                 s\<lparr>messages := messages s @
                       [\<lparr>msg_id = uid1, role = user, content = trim (input s), pending = None\<rparr>,
                        \<lparr>msg_id = uid2, role = system, content = ''Thinking...'', pending = Some True\<rparr>],
                    input := [], loading := True\<rparr>)"
  using assms by (simp add: submit_sync_def Let_def)

lemma submit_resolve_placeholder:
  assumes "uid2 \<notin> msg_id ` set ms" and "uid2 \<noteq> uid1"
    and "messages s1 = ms @ [\<lparr>msg_id = uid1, role = user, content = v, pending = None\<rparr>,
                             \<lparr>msg_id = uid2, role = system, content = ''Thinking...'', pending = Some True\<rparr>]"
  shows "messages (submit_resolve uid2 r s1) =
           ms @ [\<lparr>msg_id = uid1, role = user, content = v, pending = None\<rparr>,
                 \<lparr>msg_id = uid2, role = system, content = r, pending = Some False\<rparr>]"
  using assms by (simp add: submit_resolve_def resolve_fresh)

lemma handleSubmit_accepted:
  assumes "trim (input s) \<noteq> []" and "\<not> loading s"
  shows "handleSubmit uid1 uid2 s =
           submit_resolve uid2 (fst (generateReply (trim (input s)) s))
             (snd (generateReply (trim (input s))
                (s\<lparr>messages := messages s @
                       [\<lparr>msg_id = uid1, role = user, content = trim (input s), pending = None\<rparr>,
                        \<lparr>msg_id = uid2, role = system, content = ''Thinking...'', pending = Some True\<rparr>],
                    input := [], loading := True\<rparr>)))"
proof -
  let ?s1 = "s\<lparr>messages := messages s @
                       [\<lparr>msg_id = uid1, role = user, content = trim (input s), pending = None\<rparr>,
                        \<lparr>msg_id = uid2, role = system, content = ''Thinking...'', pending = Some True\<rparr>],
                    input := [], loading := True\<rparr>"
  have "fst (generateReply (trim (input s)) ?s1) = fst (generateReply (trim (input s)) s)"
    by (rule generateReply_reply) simp
  then show ?thesis
    using submit_sync_accepted[OF assms, of uid1 uid2]
    by (simp add: handleSubmit_def case_prod_beta)
qed

lemma handleSubmit_messages:
  assumes "trim (input s) \<noteq> []" and "\<not> loading s"
    and "uid2 \<notin> msg_id ` set (messages s)" and "uid2 \<noteq> uid1"
  shows "messages (handleSubmit uid1 uid2 s) =
           messages s @
             [\<lparr>msg_id = uid1, role = user, content = trim (input s), pending = None\<rparr>,
              \<lparr>msg_id = uid2, role = system,
                content = fst (generateReply (trim (input s)) s), pending = Some False\<rparr>]"
  unfolding handleSubmit_accepted[OF assms(1,2)]
  by (rule submit_resolve_placeholder[OF assms(3,4)]) (simp add: generateReply_frame)

lemma submit_resolve_ids:
  "map msg_id (messages (submit_resolve pid r s1)) = map msg_id (messages s1)"
  by (simp add: submit_resolve_def comp_def)

lemma submit_resolve_last:
  assumes "messages s1 = ms @ [u, \<lparr>msg_id = pid, role = system, content = c, pending = b\<rparr>]"
  shows "last (messages (submit_resolve pid r s1)) =
           \<lparr>msg_id = pid, role = system, content = r, pending = Some False\<rparr>"
  using assms by (simp add: submit_resolve_def)

lemma handleSubmit_shape:
  assumes "trim (input s) \<noteq> []" and "\<not> loading s"
  shows "length (messages (handleSubmit uid1 uid2 s)) = length (messages s) + 2
       \<and> map msg_id (messages (handleSubmit uid1 uid2 s)) = map msg_id (messages s) @ [uid1, uid2]
       \<and> last (messages (handleSubmit uid1 uid2 s)) =
           \<lparr>msg_id = uid2, role = system,
             content = fst (generateReply (trim (input s)) s), pending = Some False\<rparr>"
proof -
  let ?s1 = "snd (generateReply (trim (input s))
                (s\<lparr>messages := messages s @
                       [\<lparr>msg_id = uid1, role = user, content = trim (input s), pending = None\<rparr>,
                        \<lparr>msg_id = uid2, role = system, content = ''Thinking...'', pending = Some True\<rparr>],
                    input := [], loading := True\<rparr>))"
  have m: "messages ?s1 = messages s @
                       [\<lparr>msg_id = uid1, role = user, content = trim (input s), pending = None\<rparr>,
                        \<lparr>msg_id = uid2, role = system, content = ''Thinking...'', pending = Some True\<rparr>]"
    by (simp add: generateReply_frame)
  have ids: "map msg_id (messages (handleSubmit uid1 uid2 s)) = map msg_id (messages s) @ [uid1, uid2]"
    unfolding handleSubmit_accepted[OF assms] submit_resolve_ids m by simp
  have "length (map msg_id (messages (handleSubmit uid1 uid2 s))) = length (messages s) + 2"
    unfolding ids by simp
  then have len: "length (messages (handleSubmit uid1 uid2 s)) = length (messages s) + 2"
    by simp
  have lst: "last (messages (handleSubmit uid1 uid2 s)) =
           \<lparr>msg_id = uid2, role = system,
             content = fst (generateReply (trim (input s)) s), pending = Some False\<rparr>"
    unfolding handleSubmit_accepted[OF assms] by (rule submit_resolve_last[OF m])
  show ?thesis
    using len ids lst by simp
qed

text \<open>
  When the two ids drawn by \<open>uid()\<close> coincide, the resolution rewrites the user message as
  well as the placeholder: with the reply \<open>Hello!\<close> both new entries end up with that
  content and with \<open>pending\<close> false.
\<close>

theorem submit_id_collision_counterexample:
  "messages (handleSubmit ''u1'' ''u1''
               ((initial_app ''u0'')\<lparr>input := ''hi'', engine := Some hello_engine\<rparr>)) =
     [\<lparr>msg_id = ''u0'', role = system, content = ''Hi! How can I help you today?'', pending = None\<rparr>,
      \<lparr>msg_id = ''u1'', role = user, content = ''Hello!'', pending = Some False\<rparr>,
      \<lparr>msg_id = ''u1'', role = system, content = ''Hello!'', pending = Some False\<rparr>]"
  by (simp add: handleSubmit_def submit_sync_def submit_resolve_def generateReply_def Let_def
        trim_def is_ws_def initial_app_def hello_engine_def)

text \<open>
  Claim C6, as amended. A submit of text that is not all white space, while an engine is
  held and no generation is in flight, appends exactly two entries in its synchronous part:
  the user message and then the pending placeholder. When the generation resolves, the
  transcript keeps its length and the id at every position, and the placeholder, at the
  last position, has its content replaced and \<open>pending\<close> cleared. The resolution rewrites
  every entry that carries the placeholder's id: if that id differs from the id of the user
  message and of every earlier message, the placeholder is the only entry mutated and the
  transcript is the old one followed by the user message and the resolved placeholder.
  Nothing in the code checks the ids that \<open>uid()\<close> draws.
\<close>

theorem submit_appends_two_resolves_one:
  assumes "trim (input s) \<noteq> []" and "\<not> loading s" and "engine s = Some e"
  shows "submit_sync uid1 uid2 s =
           Some (trim (input s), uid2,
                 s\<lparr>messages := messages s @
                       [\<lparr>msg_id = uid1, role = user, content = trim (input s), pending = None\<rparr>,
                        \<lparr>msg_id = uid2, role = system, content = ''Thinking...'', pending = Some True\<rparr>],
                    input := [], loading := True\<rparr>)
       \<and> length (messages (handleSubmit uid1 uid2 s)) = length (messages s) + 2
       \<and> map msg_id (messages (handleSubmit uid1 uid2 s)) = map msg_id (messages s) @ [uid1, uid2]
       \<and> last (messages (handleSubmit uid1 uid2 s)) =
           \<lparr>msg_id = uid2, role = system,
             content = fst (generateReply (trim (input s)) s), pending = Some False\<rparr>
       \<and> (uid2 \<notin> msg_id ` set (messages s) \<and> uid2 \<noteq> uid1 \<longrightarrow>
            messages (handleSubmit uid1 uid2 s) =
              messages s @
                [\<lparr>msg_id = uid1, role = user, content = trim (input s), pending = None\<rparr>,
                 \<lparr>msg_id = uid2, role = system,
                   content = fst (generateReply (trim (input s)) s), pending = Some False\<rparr>])"
  using submit_sync_accepted[OF assms(1,2)] handleSubmit_shape[OF assms(1,2)]
    handleSubmit_messages[OF assms(1,2)]
  by simp

theorem submit_appends_two_resolves_one_witness:
  "messages (handleSubmit ''u1'' ''u2'' ((initial_app ''u0'')\<lparr>input := ''hi'', engine := Some hello_engine\<rparr>)) =
     [\<lparr>msg_id = ''u0'', role = system, content = ''Hi! How can I help you today?'', pending = None\<rparr>,
      \<lparr>msg_id = ''u1'', role = user, content = ''hi'', pending = None\<rparr>,
      \<lparr>msg_id = ''u2'', role = system, content = ''Hello!'', pending = Some False\<rparr>]"
proof -
  let ?s = "(initial_app ''u0'')\<lparr>input := ''hi'', engine := Some hello_engine\<rparr>"
  have t: "trim (input ?s) = ''hi''"
    by (simp add: trim_def is_ws_def)
  have h1: "trim (input ?s) \<noteq> []"
    unfolding t by simp
  have h2: "\<not> loading ?s" and h3: "engine ?s = Some hello_engine"
    and h4: "''u2'' \<notin> msg_id ` set (messages ?s)"
    by (simp_all add: initial_app_def)
  have h5: "''u2'' \<noteq> ''u1''"
    by simp
  have r: "fst (generateReply ''hi'' ?s) = ''Hello!''"
    by (simp add: generateReply_def hello_engine_def)
  have m: "messages ?s = [\<lparr>msg_id = ''u0'', role = system, content = ''Hi! How can I help you today?'', pending = None\<rparr>]"
    by (simp add: initial_app_def)
  from submit_appends_two_resolves_one[OF h1 h2 h3, of "''u1''" "''u2''"] h4 h5
  have "messages (handleSubmit ''u1'' ''u2'' ?s) =
              messages ?s @
                [\<lparr>msg_id = ''u1'', role = user, content = trim (input ?s), pending = None\<rparr>,
                 \<lparr>msg_id = ''u2'', role = system,
                   content = fst (generateReply (trim (input ?s)) ?s), pending = Some False\<rparr>]"
    by blast
  then show ?thesis
    unfolding t r m by simp
qed

text \<open>
  Without an engine the submission is not rejected: the transcript of the initial state
  with input \<open>hi\<close> changes.
\<close>

theorem no_engine_submit_counterexample:
  "messages (handleSubmit ''u1'' ''u2'' ((initial_app ''u0'')\<lparr>input := ''hi''\<rparr>))
     \<noteq> messages ((initial_app ''u0'')\<lparr>input := ''hi''\<rparr>)"
  by (simp add: handleSubmit_def submit_sync_def submit_resolve_def generateReply_def Let_def
        trim_def is_ws_def initial_app_def)

text \<open>
  Claim C8, as amended. A submit of text that is not all white space while no engine is
  held and no generation is in flight is accepted like any other: two entries are appended,
  and the placeholder, at the last position, is resolved to the reply
  \<open>Engine not initialized\<close> with \<open>pending\<close> cleared. Nothing is thrown, the error cell is
  untouched, the input is emptied and \<open>loading\<close> is cleared again. If the placeholder's id
  differs from the id of the user message and of every earlier message, the transcript is
  the old one followed by the user message and that reply; nothing in the code checks the
  ids that \<open>uid()\<close> draws.
\<close>

theorem no_engine_submit_replies_not_ready:
  assumes "trim (input s) \<noteq> []" and "\<not> loading s" and "engine s = None"
  shows "length (messages (handleSubmit uid1 uid2 s)) = length (messages s) + 2
       \<and> map msg_id (messages (handleSubmit uid1 uid2 s)) = map msg_id (messages s) @ [uid1, uid2]
       \<and> last (messages (handleSubmit uid1 uid2 s)) =
           \<lparr>msg_id = uid2, role = system, content = ''Engine not initialized'',
             pending = Some False\<rparr>
       \<and> error (handleSubmit uid1 uid2 s) = error s
       \<and> engine (handleSubmit uid1 uid2 s) = None
       \<and> \<not> loading (handleSubmit uid1 uid2 s)
       \<and> input (handleSubmit uid1 uid2 s) = []
       \<and> (uid2 \<notin> msg_id ` set (messages s) \<and> uid2 \<noteq> uid1 \<longrightarrow>
            messages (handleSubmit uid1 uid2 s) =
              messages s @
                [\<lparr>msg_id = uid1, role = user, content = trim (input s), pending = None\<rparr>,
                 \<lparr>msg_id = uid2, role = system, content = ''Engine not initialized'',
                   pending = Some False\<rparr>])"
proof -
  have r: "fst (generateReply (trim (input s)) s) = ''Engine not initialized''"
    using assms(3) by (simp add: generateReply_def)
  have "error (handleSubmit uid1 uid2 s) = error s \<and> engine (handleSubmit uid1 uid2 s) = None
       \<and> \<not> loading (handleSubmit uid1 uid2 s) \<and> input (handleSubmit uid1 uid2 s) = []"
    unfolding handleSubmit_accepted[OF assms(1,2)]
    using assms(3) by (simp add: submit_resolve_def generateReply_def)
  then show ?thesis
    using handleSubmit_shape[OF assms(1,2), of uid1 uid2] handleSubmit_messages[OF assms(1,2), of uid2 uid1]
    unfolding r by simp
qed

theorem no_engine_submit_replies_not_ready_witness:
  "messages (handleSubmit ''u1'' ''u2'' ((initial_app ''u0'')\<lparr>input := '' hi ''\<rparr>)) =
     [\<lparr>msg_id = ''u0'', role = system, content = ''Hi! How can I help you today?'', pending = None\<rparr>,
      \<lparr>msg_id = ''u1'', role = user, content = ''hi'', pending = None\<rparr>,
      \<lparr>msg_id = ''u2'', role = system, content = ''Engine not initialized'', pending = Some False\<rparr>]"
proof -
  let ?s = "(initial_app ''u0'')\<lparr>input := '' hi ''\<rparr>"
  have t: "trim (input ?s) = ''hi''"
    by (simp add: trim_def is_ws_def)
  have h1: "trim (input ?s) \<noteq> []"
    unfolding t by simp
  have h2: "\<not> loading ?s" and h3: "engine ?s = None"
    and h4: "''u2'' \<notin> msg_id ` set (messages ?s)"
    by (simp_all add: initial_app_def)
  have h5: "''u2'' \<noteq> ''u1''"
    by simp
  have m: "messages ?s = [\<lparr>msg_id = ''u0'', role = system, content = ''Hi! How can I help you today?'', pending = None\<rparr>]"
    by (simp add: initial_app_def)
  from no_engine_submit_replies_not_ready[OF h1 h2 h3, of "''u1''" "''u2''"] h4 h5
  have "messages (handleSubmit ''u1'' ''u2'' ?s) =
              messages ?s @
                [\<lparr>msg_id = ''u1'', role = user, content = trim (input ?s), pending = None\<rparr>,
                 \<lparr>msg_id = ''u2'', role = system, content = ''Engine not initialized'',
                   pending = Some False\<rparr>]"
    by blast
  then show ?thesis
    unfolding t m by simp
qed

text \<open>
  Claim C9. When the engine throws during generation, \<open>generateReply\<close> returns the text
  \<open>Generation error: ...\<close> and also writes it into the error cell that the loader uses;
  through \<open>handleSubmit\<close> the same text ends up in the placeholder and in the error cell.
\<close>

theorem generation_failure_sets_error:
  assumes "engine s = Some e" and "create e txt = Threw err"
  shows "generateReply txt s =
           (''Generation error: '' @ err_text err,
            s\<lparr>error := Some (''Generation error: '' @ err_text err)\<rparr>)
       \<and> (trim (input s) = txt \<and> txt \<noteq> [] \<and> \<not> loading s \<longrightarrow>
            error (handleSubmit uid1 uid2 s) = Some (''Generation error: '' @ err_text err)
          \<and> content (last (messages (handleSubmit uid1 uid2 s)))
              = ''Generation error: '' @ err_text err)"
proof -
  have g: "generateReply txt s' =
           (''Generation error: '' @ err_text err,
            s'\<lparr>error := Some (''Generation error: '' @ err_text err)\<rparr>)" if "engine s' = Some e" for s'
    using that assms(2) by (simp add: generateReply_def Let_def)
  have "error (handleSubmit uid1 uid2 s) = Some (''Generation error: '' @ err_text err)
          \<and> content (last (messages (handleSubmit uid1 uid2 s)))
              = ''Generation error: '' @ err_text err"
    if "trim (input s) = txt" "txt \<noteq> []" "\<not> loading s"
  proof -
    have a: "trim (input s) \<noteq> []"
      using that by simp
    show ?thesis
      unfolding handleSubmit_accepted[OF a that(3)]
      using that(1) assms(1) by (simp add: g submit_resolve_def)
  qed
  then show ?thesis
    using g[OF assms(1)] by simp
qed

theorem generation_failure_sets_error_witness:
  "error (snd (generateReply ''hi'' ((initial_app ''u0'')\<lparr>engine := Some broken_engine\<rparr>)))
     = Some ''Generation error: context window exceeded''"
proof -
  have h1: "engine ((initial_app ''u0'')\<lparr>engine := Some broken_engine\<rparr>) = Some broken_engine"
    by simp
  have h2: "create broken_engine ''hi'' = Threw (ErrorObj ''Error'' ''context window exceeded'')"
    by (simp add: broken_engine_def)
  from generation_failure_sets_error[OF h1 h2] show ?thesis
    by simp
qed

section \<open>Properties of the model loader\<close>

lemma indexOf_less: "indexOf xs x = Some i \<Longrightarrow> i < length xs"
  by (induction xs arbitrary: i) (auto split: if_splits)

lemma startIndex_less: "cands \<noteq> [] \<Longrightarrow> startIndex cands name < length cands"
  by (auto simp: startIndex_def indexOf_less split: option.splits)


text \<open>
  With the default selection of the \<open>App\<close> with model selection (the last entry of
  \<open>FALLBACK_MODELS\<close>) and every attempt failing with \<open>Device was lost\<close>, only that one
  candidate is tried: the audit list is not the full list.
\<close>

theorem tried_not_full_list_counterexample:
  "triedModels (load_effect_sel mlc_all_lost FALLBACK_MODELS (initial_app_sel ''u0''))
     = [''Llama-3.2-1B-Instruct-q4f16_1-MLC'']
   \<and> triedModels (load_effect_sel mlc_all_lost FALLBACK_MODELS (initial_app_sel ''u0''))
     \<noteq> FALLBACK_MODELS"
  by (simp add: load_effect_sel_def Let_def initial_app_sel_def initial_app_def FALLBACK_MODELS_def
        startIndex_def loadModel_sel.simps mlc_all_lost_def lost_attempt_def
        initProgressCallback_sel_def percent_0_3 device_lost_test_def to_lower_def)

text \<open>
  Claim C1, as amended. When every attempt from the starting index of the load on fails
  with an error that matches the device-lost test, and the load is not cancelled, the
  loader tries every candidate from that index to the end of the list, once each and in
  list order: the audit list is extended by exactly that part of the list. The starting
  index is 0 in \<open>src/App.jsx\<close>, so there the whole list is tried; in the \<open>App\<close> with
  model selection it is the position of the selected model in the list, or 0 when it is
  not in the list. The load stores no engine, the error of the last candidate is
  retained, and the function returns: nothing is retried.
\<close>

theorem exhausted_tries_rest_of_list:
  assumes "\<forall>k. j \<le> k \<and> k < length cands \<longrightarrow>
             (\<exists>err. result (mlc (cands ! k)) = InitFailed err \<and> device_lost_test (err_text err))
             \<and> Cleanup \<notin> set (callbacks (mlc (cands ! k)))"
  shows "(j = 0 \<longrightarrow>
            triedModels (load_effect mlc cands s) = triedModels s @ cands
          \<and> engine (load_effect mlc cands s) = engine s
          \<and> (cands \<noteq> [] \<longrightarrow>
               (\<exists>err. result (mlc (last cands)) = InitFailed err
                     \<and> error (load_effect mlc cands s) = Some (err_text err))))
       \<and> (j = startIndex cands (modelName s) \<and> engine s = None \<longrightarrow>
            triedModels (load_effect_sel mlc cands s) = triedModels s @ drop j cands
          \<and> engine (load_effect_sel mlc cands s) = None
          \<and> (cands \<noteq> [] \<longrightarrow>
               (\<exists>err. result (mlc (last cands)) = InitFailed err
                     \<and> error (load_effect_sel mlc cands s) = Some (err_text err))))"
proof -
  have nc: "\<not> cancelled (s\<lparr>cancelled := False\<rparr>)"
    by simp
  have A: "triedModels (load_effect mlc cands s) = triedModels s @ cands
          \<and> engine (load_effect mlc cands s) = engine s
          \<and> (cands \<noteq> [] \<longrightarrow>
               (\<exists>err. result (mlc (last cands)) = InitFailed err
                     \<and> error (load_effect mlc cands s) = Some (err_text err)))" if "j = 0"
    using loadModel_all_exhausted[where mlc = mlc and cands = cands and i = 0
            and s = "s\<lparr>cancelled := False\<rparr>"] assms nc that
    by (simp add: load_effect_def)
  have B: "triedModels (load_effect_sel mlc cands s) = triedModels s @ drop j cands
          \<and> engine (load_effect_sel mlc cands s) = None
          \<and> (cands \<noteq> [] \<longrightarrow>
               (\<exists>err. result (mlc (last cands)) = InitFailed err
                     \<and> error (load_effect_sel mlc cands s) = Some (err_text err)))"
    if "j = startIndex cands (modelName s)" "engine s = None"
    using loadModel_sel_all_exhausted[where mlc = mlc and cands = cands and i = j
            and s = "s\<lparr>cancelled := False\<rparr>"] assms nc that
      startIndex_less[of cands "modelName s"]
    by (simp add: load_effect_sel_def Let_def)
  show ?thesis
    using A B by blast
qed

theorem exhausted_tries_rest_of_list_witness:
  "triedModels (load_effect mlc_all_lost [''A'', ''Llama-3.1-8B-Instruct-q4f32_1-MLC'', ''B'']
                  (initial_app ''u0''))
     = [''A'', ''Llama-3.1-8B-Instruct-q4f32_1-MLC'', ''B'']
   \<and> error (load_effect mlc_all_lost [''A'', ''Llama-3.1-8B-Instruct-q4f32_1-MLC'', ''B'']
              (initial_app ''u0'')) = Some ''Device was lost''
   \<and> triedModels (load_effect_sel mlc_first_loads [''A'', ''Llama-3.1-8B-Instruct-q4f32_1-MLC'', ''B'']
                    (initial_app ''u0''))
     = [''Llama-3.1-8B-Instruct-q4f32_1-MLC'', ''B'']
   \<and> error (load_effect_sel mlc_first_loads [''A'', ''Llama-3.1-8B-Instruct-q4f32_1-MLC'', ''B'']
              (initial_app ''u0'')) = Some ''Device was lost''"
proof -
  let ?cands = "[''A'', ''Llama-3.1-8B-Instruct-q4f32_1-MLC'', ''B'']"
  have lost: "device_lost_test ''Device was lost''"
    by (simp add: device_lost_test_def to_lower_def)
  have h0: "\<forall>k. 0 \<le> k \<and> k < length ?cands \<longrightarrow>
             (\<exists>err. result (mlc_all_lost (?cands ! k)) = InitFailed err
                  \<and> device_lost_test (err_text err))
             \<and> Cleanup \<notin> set (callbacks (mlc_all_lost (?cands ! k)))"
    using lost by (simp add: mlc_all_lost_def lost_attempt_def)
  have c: "mlc_first_loads (?cands ! k) = lost_attempt" if "1 \<le> k" "k < length ?cands" for k
  proof -
    from that have "k = 1 \<or> k = 2"
      by auto
    then show ?thesis
      by (auto simp: mlc_first_loads_def)
  qed
  have h1: "\<forall>k. 1 \<le> k \<and> k < length ?cands \<longrightarrow>
             (\<exists>err. result (mlc_first_loads (?cands ! k)) = InitFailed err
                  \<and> device_lost_test (err_text err))
             \<and> Cleanup \<notin> set (callbacks (mlc_first_loads (?cands ! k)))"
    using lost c by (simp add: lost_attempt_def)
  have s: "triedModels (initial_app ''u0'') = []" "engine (initial_app ''u0'') = None"
      "modelName (initial_app ''u0'') = ''Llama-3.1-8B-Instruct-q4f32_1-MLC''"
    by (simp_all add: initial_app_def)
  have i: "startIndex ?cands ''Llama-3.1-8B-Instruct-q4f32_1-MLC'' = 1"
    by (simp add: startIndex_def)
  have r0: "result (mlc_all_lost m) = InitFailed (ErrorObj ''Error'' ''Device was lost'')" for m
    by (simp add: mlc_all_lost_def lost_attempt_def)
  have r1: "result (mlc_first_loads ''B'') = InitFailed (ErrorObj ''Error'' ''Device was lost'')"
    by (simp add: mlc_first_loads_def lost_attempt_def)
  from exhausted_tries_rest_of_list[OF h0, of "initial_app ''u0''"]
  have A: "triedModels (load_effect mlc_all_lost ?cands (initial_app ''u0'')) = ?cands
         \<and> error (load_effect mlc_all_lost ?cands (initial_app ''u0'')) = Some ''Device was lost''"
    unfolding s r0 by auto
  from exhausted_tries_rest_of_list[OF h1, of "initial_app ''u0''"]
  have B: "triedModels (load_effect_sel mlc_first_loads ?cands (initial_app ''u0''))
             = [''Llama-3.1-8B-Instruct-q4f32_1-MLC'', ''B'']
         \<and> error (load_effect_sel mlc_first_loads ?cands (initial_app ''u0'')) = Some ''Device was lost''"
    unfolding s i using r1 by auto
  show ?thesis
    using A B by simp
qed



text \<open>
  Claim C3. If the attempt for the first candidate of a load (index \<open>i\<close>) succeeds, the
  audit list grows by that candidate alone: no second candidate is attempted. The engine
  handle is stored, the progress is 100 and the error cell is empty.
\<close>

theorem first_success_stops:
  assumes "i < length cands" and "result (mlc (cands ! i)) = Created e"
    and "Cleanup \<notin> set (callbacks (mlc (cands ! i)))" and "\<not> cancelled s"
  shows "triedModels (loadModel mlc cands i s) = triedModels s @ [cands ! i]
       \<and> engine (loadModel mlc cands i s) = Some e
       \<and> downloadProgress (loadModel mlc cands i s) = Finite 100 0
       \<and> error (loadModel mlc cands i s) = None
       \<and> triedModels (loadModel_sel mlc cands i s) = triedModels s @ [cands ! i]
       \<and> engine (loadModel_sel mlc cands i s) = Some e
       \<and> downloadProgress (loadModel_sel mlc cands i s) = Finite 100 0
       \<and> error (loadModel_sel mlc cands i s) = None"
  using loadModel_created[where mlc = mlc and cands = cands and i = i and e = e and s = s]
    loadModel_sel_created[where mlc = mlc and cands = cands and i = i and e = e and s = s] assms
  by (simp add: await_initProgressCallback_frame await_initProgressCallback_sel_frame)

theorem first_success_stops_witness:
  "triedModels (loadModel mlc_third_loads [''C'', ''D''] 0 (initial_app ''u0'')) = [''C'']
   \<and> engine (loadModel mlc_third_loads [''C'', ''D''] 0 (initial_app ''u0'')) = Some echo_engine
   \<and> downloadProgress (loadModel mlc_third_loads [''C'', ''D''] 0 (initial_app ''u0''))
       = Finite 100 0
   \<and> error (loadModel mlc_third_loads [''C'', ''D''] 0 (initial_app ''u0'')) = None
   \<and> triedModels (loadModel_sel mlc_third_loads [''C'', ''D''] 0 (initial_app ''u0'')) = [''C'']"
proof -
  have h1: "0 < length [''C'', ''D'']"
    by simp
  have h2: "result (mlc_third_loads ([''C'', ''D''] ! 0)) = Created echo_engine"
    and h3: "Cleanup \<notin> set (callbacks (mlc_third_loads ([''C'', ''D''] ! 0)))"
    by (simp_all add: mlc_third_loads_def good_attempt_def)
  have h4: "\<not> cancelled (initial_app ''u0'')" and s: "triedModels (initial_app ''u0'') = []"
    by (simp_all add: initial_app_def)
  from first_success_stops[where mlc = mlc_third_loads, OF h1 h2 h3 h4] show ?thesis
    unfolding s by simp
qed

text \<open>
  Claim C4. Once the cleanup has set \<open>cancelled\<close> during an attempt, the load ends in the
  state it had at that moment: the callbacks delivered afterwards (\<open>post\<close>), the way the
  promise settles and the rest of the candidate list do not appear in the result, so the
  engine, progress, error and \<open>isDownloading\<close> cells are not written and no further
  candidate is recorded or attempted. Later callbacks of the cancelled load, and a later
  entry into \<open>loadModel\<close> with its check on entry, leave the state as it is.
\<close>

theorem cancelled_load_is_discarded:
  assumes "i < length cands" and "callbacks (mlc (cands ! i)) = pre @ Cleanup # post"
    and "\<not> cancelled s"
  shows "loadModel mlc cands i s =
           (await_events initProgressCallback pre
              (s\<lparr>modelName := cands ! i, triedModels := triedModels s @ [cands ! i],
                 isDownloading := True, downloadProgress := Finite 0 0, error := None\<rparr>))\<lparr>cancelled := True\<rparr>
       \<and> loadModel_sel mlc cands i s =
           (await_events initProgressCallback_sel pre
              (s\<lparr>isDownloading := True, downloadProgress := Finite 0 0, error := None,
                 triedModels := triedModels s @ [cands ! i]\<rparr>))\<lparr>cancelled := True\<rparr>
       \<and> await_events initProgressCallback post
            (loadModel mlc cands i s) = loadModel mlc cands i s
       \<and> await_events initProgressCallback_sel post
            (loadModel_sel mlc cands i s) = loadModel_sel mlc cands i s
       \<and> loadModel_sel mlc cands (Suc i) (loadModel_sel mlc cands i s) = loadModel_sel mlc cands i s"
  using loadModel_cancel[where mlc = mlc and cands = cands and i = i and pre = pre and post = post and s = s]
    loadModel_sel_cancel[where mlc = mlc and cands = cands and i = i and pre = pre and post = post and s = s]
    assms
  by (simp add: await_events_inert initProgressCallback_inert initProgressCallback_sel_inert
        loadModel_sel.simps)

theorem cancelled_load_is_discarded_witness:
  "downloadProgress (loadModel mlc_switched [''A'', ''B''] 0 (initial_app ''u0'')) = Finite 30 0
   \<and> engine (loadModel mlc_switched [''A'', ''B''] 0 (initial_app ''u0'')) = None
   \<and> triedModels (loadModel mlc_switched [''A'', ''B''] 0 (initial_app ''u0'')) = [''A'']
   \<and> downloadProgress (loadModel_sel mlc_switched [''A'', ''B''] 0 (initial_app ''u0'')) = Finite 30 0
   \<and> engine (loadModel_sel mlc_switched [''A'', ''B''] 0 (initial_app ''u0'')) = None
   \<and> triedModels (loadModel_sel mlc_switched [''A'', ''B''] 0 (initial_app ''u0'')) = [''A'']"
proof -
  have len: "0 < length [''A'', ''B'']"
    by simp
  have evs: "callbacks (mlc_switched ([''A'', ''B''] ! 0)) =
      [ProgressCb \<lparr>progress = Some (Finite 5404319552844595 (- 54)), diag_text = None\<rparr>] @ Cleanup #
      [ProgressCb \<lparr>progress = Some (Finite 8106479329266893 (- 53)), diag_text = Some ''Loading GPU shader''\<rparr>]"
    by (simp add: mlc_switched_def switched_attempt_def)
  have nc: "\<not> cancelled (initial_app ''u0'')"
    by (simp add: initial_app_def)
  have pc: "percent_of \<lparr>progress = Some (Finite 5404319552844595 (- 54)), diag_text = None\<rparr>
              = Finite 30 0"
    by (rule percent_0_3)
  note t = cancelled_load_is_discarded[where mlc = mlc_switched, OF len evs nc]
  have a: "loadModel mlc_switched [''A'', ''B''] 0 (initial_app ''u0'') =
           (await_events initProgressCallback [ProgressCb \<lparr>progress = Some (Finite 5404319552844595 (- 54)), diag_text = None\<rparr>]
              ((initial_app ''u0'')\<lparr>modelName := [''A'', ''B''] ! 0,
                 triedModels := triedModels (initial_app ''u0'') @ [[''A'', ''B''] ! 0],
                 isDownloading := True, downloadProgress := Finite 0 0, error := None\<rparr>))\<lparr>cancelled := True\<rparr>"
    using t by (rule conjunct1)
  have b: "loadModel_sel mlc_switched [''A'', ''B''] 0 (initial_app ''u0'') =
           (await_events initProgressCallback_sel [ProgressCb \<lparr>progress = Some (Finite 5404319552844595 (- 54)), diag_text = None\<rparr>]
              ((initial_app ''u0'')\<lparr>isDownloading := True, downloadProgress := Finite 0 0, error := None,
                 triedModels := triedModels (initial_app ''u0'') @ [[''A'', ''B''] ! 0]\<rparr>))\<lparr>cancelled := True\<rparr>"
    using t by (rule conjunct1[OF conjunct2])
  show ?thesis
    unfolding a b
    by (simp add: nc pc initProgressCallback_percent initProgressCallback_sel_percent
          await_initProgressCallback_frame await_initProgressCallback_sel_frame
          initProgressCallback_frame initProgressCallback_sel_frame initial_app_def)
qed

text \<open>
  The panel shows the latest reported value, not a running maximum: after the fractions
  0.5 and 0.2 the number on the screen is 20, after 0.5 alone it was 50.
\<close>

theorem progress_decreases_counterexample:
  "progress_shown
     (await_events initProgressCallback
        [ProgressCb \<lparr>progress = Some (Finite 1 (- 1)), diag_text = None\<rparr>] (initial_app ''u0''))
     = Some (Finite 50 0)
   \<and> progress_shown
       (await_events initProgressCallback
          [ProgressCb \<lparr>progress = Some (Finite 1 (- 1)), diag_text = None\<rparr>,
           ProgressCb \<lparr>progress = Some (Finite 3602879701896397 (- 54)), diag_text = None\<rparr>]
          (initial_app ''u0''))
     = Some (Finite 20 0)
   \<and> js_less (Finite 20 0) (Finite 50 0)"
  by (simp add: progress_shown_def initProgressCallback_def percent_half percent_0_2 initial_app_def)

text \<open>
  Claim C5, as amended. While the load is not cancelled, after any non-empty sequence of
  progress callbacks the recorded percentage is \<open>Math.round\<close> of the binary64 product of
  the fraction reported last (0 when it is missing) and 100. Whenever the progress panel is
  on the screen, the number it shows is that recorded value: it is not clamped, so a
  callback that arrives out of order lowers it. \<open>src/App.jsx\<close> shows the panel while no
  engine is held and the value is below 100 or an error is set; the \<open>App\<close> with model
  selection shows it while no engine is held. A callback never fails.
\<close>

theorem progress_is_last_reported:
  assumes "Cleanup \<notin> set es" and "\<not> cancelled s" and "progress_objs es \<noteq> []"
  shows "downloadProgress (await_events initProgressCallback es s)
           = Math_round (js_times (case progress (last (progress_objs es)) of
                                     None \<Rightarrow> Finite 0 0 | Some x \<Rightarrow> x) (Finite 100 0))
       \<and> progress_shown (await_events initProgressCallback es s)
           = (if engine s = None
                 \<and> (js_less (percent_of (last (progress_objs es))) (Finite 100 0) \<or> truthy (error s))
              then Some (percent_of (last (progress_objs es))) else None)
       \<and> downloadProgress (await_events initProgressCallback_sel es s)
           = Math_round (js_times (case progress (last (progress_objs es)) of
                                     None \<Rightarrow> Finite 0 0 | Some x \<Rightarrow> x) (Finite 100 0))
       \<and> progress_shown_sel (await_events initProgressCallback_sel es s)
           = (if engine s = None then Some (percent_of (last (progress_objs es))) else None)"
proof -
  note a = await_initProgressCallback_progress[OF assms]
  note b = await_initProgressCallback_sel_progress[OF assms]
  have "progress_shown (await_events initProgressCallback es s)
           = (if engine s = None
                 \<and> (js_less (percent_of (last (progress_objs es))) (Finite 100 0) \<or> truthy (error s))
              then Some (percent_of (last (progress_objs es))) else None)"
    using a by (auto simp: progress_shown_def await_initProgressCallback_frame)
  moreover have "progress_shown_sel (await_events initProgressCallback_sel es s)
           = (if engine s = None then Some (percent_of (last (progress_objs es))) else None)"
    using b by (simp add: progress_shown_sel_def await_initProgressCallback_sel_frame)
  ultimately show ?thesis
    using a b by (simp add: percent_of_def)
qed

theorem progress_is_last_reported_witness:
  "progress_shown
     (await_events initProgressCallback
        [ProgressCb \<lparr>progress = Some (Finite 1 (- 1)), diag_text = None\<rparr>,
         ProgressCb \<lparr>progress = Some (Finite 3602879701896397 (- 54)), diag_text = None\<rparr>]
        (initial_app ''u0'')) = Some (Finite 20 0)
   \<and> downloadProgress
       (await_events initProgressCallback_sel
          [ProgressCb \<lparr>progress = Some (Finite 1 (- 1)), diag_text = None\<rparr>,
           ProgressCb \<lparr>progress = Some (Finite 3602879701896397 (- 54)), diag_text = None\<rparr>]
          (initial_app ''u0'')) = Finite 20 0"
proof -
  let ?es = "[ProgressCb \<lparr>progress = Some (Finite 1 (- 1)), diag_text = None\<rparr>,
              ProgressCb \<lparr>progress = Some (Finite 3602879701896397 (- 54)), diag_text = None\<rparr>]"
  have h1: "Cleanup \<notin> set ?es" and h3: "progress_objs ?es \<noteq> []"
    by simp_all
  have h2: "\<not> cancelled (initial_app ''u0'')" and e: "engine (initial_app ''u0'') = None"
    by (simp_all add: initial_app_def)
  have l: "last (progress_objs ?es) = \<lparr>progress = Some (Finite 3602879701896397 (- 54)), diag_text = None\<rparr>"
    by simp
  have p: "Math_round (js_times (Finite 3602879701896397 (- 54)) (Finite 100 0)) = Finite 20 0"
    using percent_0_2[of None] by (simp add: percent_of_def)
  from progress_is_last_reported[OF h1 h2 h3] show ?thesis
    unfolding l e percent_0_2 by (simp add: p)
qed



end
